theory Spec2Isabelle
  imports Main
begin

section \<open>JavaScript values inspected at run time\<close>

text \<open>
  The ledger node answers in JSON. The scripts trust the SDK's declared types for the outer
  shape of a response (\<^verbatim>\<open>res.result\<close> is read without a check) but probe the
  metadata and the transaction body at run time (\<^verbatim>\<open>typeof\<close>, \<^verbatim>\<open>in\<close>,
  \<^verbatim>\<open>Array.isArray\<close>, truthiness). Those probed positions are modelled as
  JavaScript values. An object is the list of its own properties; a lookup takes the first
  binding of a name. Numbers are the JSON integers (fractions, NaN and the infinities are
  left out: no check of the scripts tells them apart from a non-zero integer).
\<close>

datatype jsval =
    JUndefined
  | JNull
  | JBool bool
  | JNumber int
  | JString string
  | JArray "jsval list"
  | JObject "(string \<times> jsval) list"

text \<open>
  What the scripts can throw. \<^verbatim>\<open>new Error(`Transaction failed: ${txResult}`)\<close>
  is kept as \<open>TransactionFailed txResult\<close>: the message is that fixed prefix followed by
  the string conversion of the value, and the value determines it. \<open>TypeError\<close> is the
  run-time error of reading a property of \<^verbatim>\<open>undefined\<close>/\<^verbatim>\<open>null\<close>
  or of applying \<^verbatim>\<open>in\<close> to a non-object. \<open>SdkError\<close> is anything the SDK
  throws (network failure, time-out, \<^verbatim>\<open>txnNotFound\<close>, a malformed seed, ...).
\<close>

datatype error =
    TransactionFailed jsval
  | TypeError
  | SdkError string

text \<open>Truthiness (\<^verbatim>\<open>ToBoolean\<close>), as used by \<^verbatim>\<open>x && ...\<close>,
  \<^verbatim>\<open>!x\<close> and \<^verbatim>\<open>if (x)\<close>.\<close>

fun truthy :: "jsval \<Rightarrow> bool" where
  "truthy JUndefined = False"
| "truthy JNull = False"
| "truthy (JBool b) = b"
| "truthy (JNumber n) = (n \<noteq> 0)"
| "truthy (JString s) = (s \<noteq> [])"
| "truthy (JArray xs) = True"
| "truthy (JObject fs) = True"

text \<open>The \<^verbatim>\<open>typeof\<close> operator; \<^verbatim>\<open>typeof null\<close> is
  \<^verbatim>\<open>'object'\<close>, and so is the type of an array.\<close>

fun typeof :: "jsval \<Rightarrow> string" where
  "typeof JUndefined = ''undefined''"
| "typeof JNull = ''object''"
| "typeof (JBool b) = ''boolean''"
| "typeof (JNumber n) = ''number''"
| "typeof (JString s) = ''string''"
| "typeof (JArray xs) = ''object''"
| "typeof (JObject fs) = ''object''"

text \<open>
  \<^verbatim>\<open>name in v\<close> for a property name that is neither an array index,
  \<^verbatim>\<open>length\<close> nor a name on a built-in prototype (the scripts ask for
  \<^verbatim>\<open>TransactionResult\<close> only). The operator throws a TypeError when its right
  operand is not an object; \<^verbatim>\<open>null\<close> is not an object here.
\<close>

fun js_in :: "string \<Rightarrow> jsval \<Rightarrow> error + bool" where
  "js_in name (JObject fs) = Inr (map_of fs name \<noteq> None)"
| "js_in name (JArray xs) = Inr False"
| "js_in name v = Inl TypeError"

text \<open>
  Property read \<^verbatim>\<open>v.name\<close>, for the same kind of name: a TypeError on
  \<^verbatim>\<open>undefined\<close> and \<^verbatim>\<open>null\<close>, \<^verbatim>\<open>undefined\<close> when
  the property is missing or the value is a primitive or an array.
\<close>

fun js_get :: "jsval \<Rightarrow> string \<Rightarrow> error + jsval" where
  "js_get JUndefined name = Inl TypeError"
| "js_get JNull name = Inl TypeError"
| "js_get (JObject fs) name =
     Inr (case map_of fs name of None \<Rightarrow> JUndefined | Some v \<Rightarrow> v)"
| "js_get v name = Inr JUndefined"

section \<open>Responses of the ledger node\<close>

text \<open>
  \<^verbatim>\<open>TxResponse\<close> of the SDK, cut down to the fields the scripts read:
  \<^verbatim>\<open>result.hash\<close> (here \<open>tx_hash\<close>, the name \<open>hash\<close> being taken by the
  hash descriptor below), \<^verbatim>\<open>result.meta\<close> and \<^verbatim>\<open>result.tx_json\<close>.
\<close>

record tx_result =
  tx_hash :: string
  meta :: jsval
  tx_json :: jsval

record tx_response =
  result :: tx_result

section \<open>validateTransactionResult (src/lib/validateTransaction.ts)\<close>

text \<open>
  \<^verbatim>\<open>
  const txResult =
    typeof result.result.meta === 'object' && 'TransactionResult' in result.result.meta
      ? result.result.meta.TransactionResult
      : 'unknown';
  \<close>
  There is no truthiness test in front of \<^verbatim>\<open>typeof\<close> here, so a
  \<^verbatim>\<open>null\<close> metadata reaches \<^verbatim>\<open>in\<close> and raises a TypeError.
\<close>

definition txResultOf :: "tx_response \<Rightarrow> error + jsval" where
  "txResultOf res =
     (if typeof (meta (result res)) = ''object'' then
        (case js_in ''TransactionResult'' (meta (result res)) of
           Inl e \<Rightarrow> Inl e
         | Inr True \<Rightarrow> js_get (meta (result res)) ''TransactionResult''
         | Inr False \<Rightarrow> Inr (JString ''unknown''))
      else Inr (JString ''unknown''))"

text \<open>
  The function receives the response object by reference and returns nothing; the model
  returns the outcome (\<open>Inl\<close> the thrown error) together with the response object as it
  is after the call.
\<close>

definition validateTransactionResult :: "tx_response \<Rightarrow> (error + unit) \<times> tx_response" where
  "validateTransactionResult res =
     (case txResultOf res of
        Inl e \<Rightarrow> (Inl e, res)
      | Inr txResult \<Rightarrow>
          if txResult \<noteq> JString ''tesSUCCESS'' then (Inl (TransactionFailed txResult), res)
          else (Inr (), res))"

section \<open>The client and its history\<close>

text \<open>
  A request of the SDK's \<^verbatim>\<open>client.request\<close>; the scripts only ever build
  \<^verbatim>\<open>{ command: 'tx', transaction: <hash> }\<close>.
\<close>

record TxRequest =
  command :: string
  transaction :: string

text \<open>
  Of the console output the model keeps the report on the inner transactions (lines 169 to
  201 of the batch script), as records of the values printed: the line
  \<^verbatim>\<open>${statusIcon} ...${tx.index}: ${tx.status}\<close> printed for each status, and the
  four lines printed for a failed transaction (index and status, hash, amount, destination;
  the amount is printed after \<^verbatim>\<open>Number(...)\<close> and a division, the record keeps
  the value of \<^verbatim>\<open>originalTx.Amount\<close> they are computed from). Fixed texts,
  progress messages and error hints are left out.
\<close>

datatype line =
    StatusLine bool int jsval
  | FailedTxLines int jsval string jsval jsval

text \<open>
  The SDK's \<^verbatim>\<open>Client\<close> is not part of the repository. Its state is modelled
  by the history of the calls made on it, oldest first, and its behaviour is a parameter:
  each operation answers as a function of the history so far and of its argument, so any
  deterministic node (one whose ledger changes between calls included) is an instance.
  The lines printed are recorded in the same history, at the moment they are printed.
\<close>

datatype event =
    is_NewClient: NewClient string
  | Connect
  | Autofill jsval
  | SubmitAndWait string
  | Request TxRequest
  | ConsoleLog line
  | Disconnect

type_synonym history = "event list"

type_synonym requester = "history \<Rightarrow> TxRequest \<Rightarrow> error + tx_response"

section \<open>getBatchTxStatus (src/lib/getBatchTxStatus.ts)\<close>

text \<open>The input pairs \<^verbatim>\<open>{ hash: string; index: number }\<close> and the interface
  \<^verbatim>\<open>InnerTxStatus\<close>, which has the same two fields and two more. The field
  \<open>status\<close> is declared a string, but it receives \<^verbatim>\<open>meta.TransactionResult\<close>
  through a cast, so it holds whatever value the node sent.\<close>

record hash_index =
  hash :: string
  index :: int

record InnerTxStatus = hash_index +
  successful :: bool
  status :: jsval

text \<open>
  Lines 29 to 50: what the callback makes of a response that arrived.
  \<^verbatim>\<open>
  if (res.result.meta && typeof res.result.meta === 'object'
      && 'TransactionResult' in res.result.meta) {
    const meta = res.result.meta as { TransactionResult: string };
    const isSuccess = meta.TransactionResult === 'tesSUCCESS';
    return { hash: tx.hash, index: tx.index, successful: isSuccess,
             status: meta.TransactionResult };
  }
  return { hash: tx.hash, index: tx.index, successful: false, status: 'unknown' };
  \<close>
\<close>

definition statusOfResponse :: "hash_index \<Rightarrow> tx_response \<Rightarrow> error + InnerTxStatus" where
  "statusOfResponse tx res =
     (if truthy (meta (result res)) \<and> typeof (meta (result res)) = ''object'' then
        (case js_in ''TransactionResult'' (meta (result res)) of
           Inl e \<Rightarrow> Inl e
         | Inr True \<Rightarrow>
             (case js_get (meta (result res)) ''TransactionResult'' of
                Inl e \<Rightarrow> Inl e
              | Inr txResult \<Rightarrow>
                  Inr \<lparr>hash = hash tx, index = index tx,
                       successful = (txResult = JString ''tesSUCCESS''),
                       status = txResult\<rparr>)
         | Inr False \<Rightarrow>
             Inr \<lparr>hash = hash tx, index = index tx,
                  successful = False, status = JString ''unknown''\<rparr>)
      else
        Inr \<lparr>hash = hash tx, index = index tx,
             successful = False, status = JString ''unknown''\<rparr>)"

text \<open>
  The whole callback \<^verbatim>\<open>async (tx) => { try { ... } catch (error) { ... } }\<close>,
  once its lookup has settled with \<open>outcome\<close> (\<open>Inl\<close>: \<^verbatim>\<open>client.request\<close>
  threw). The result is the settlement of the callback's own promise: \<open>Inr\<close> fulfilled,
  \<open>Inl\<close> rejected.
\<close>

definition lookupStatus :: "hash_index \<Rightarrow> error + tx_response \<Rightarrow> error + InnerTxStatus" where
  "lookupStatus tx outcome =
     (case (case outcome of Inl e \<Rightarrow> Inl e | Inr res \<Rightarrow> statusOfResponse tx res) of
        Inr entry \<Rightarrow> Inr entry
      | Inl e \<Rightarrow>
          Inr \<lparr>hash = hash tx, index = index tx,
               successful = False, status = JString ''not validated''\<rparr>)"

text \<open>
  \<^verbatim>\<open>innerTxHashes.map(async (tx) => { ... await client.request({command: 'tx',
  transaction: tx.hash}) ... })\<close>: \<^verbatim>\<open>map\<close> calls the callback for each pair in
  input order, and each call runs up to its first \<^verbatim>\<open>await\<close>, that is, it
  sends its request. The function returns the outcome each lookup will settle with and the
  client's history after the sends.
\<close>

fun sendLookups ::
  "requester \<Rightarrow> history \<Rightarrow> hash_index list \<Rightarrow> (error + tx_response) list \<times> history" where
  "sendLookups request h [] = ([], h)"
| "sendLookups request h (tx # txs) =
     (let req = \<lparr>command = ''tx'', transaction = hash tx\<rparr>;
          outcome = request h req;
          (outcomes, h') = sendLookups request (h @ [Request req]) txs
      in (outcome # outcomes, h'))"

text \<open>The outcomes alone: entry \<open>i\<close> is what the lookup of the \<open>i\<close>-th pair settles
  with, \<open>Inr\<close> a response or \<open>Inl\<close> the error thrown.\<close>

definition lookupOutcomes ::
  "requester \<Rightarrow> history \<Rightarrow> hash_index list \<Rightarrow> (error + tx_response) list" where
  "lookupOutcomes request h innerTxHashes = fst (sendLookups request h innerTxHashes)"

text \<open>
  The order in which the pending promises settle is the environment's choice: a
  \<open>timing\<close> is asked, with the list of the promises still pending, which of them
  settles next (a position in that list, taken modulo its length). Every order of
  completion is some timing, and every promise settles: the SDK rejects a request that
  has had no answer within its time-out, so a lookup returns or throws.
\<close>

type_synonym timing = "nat list \<Rightarrow> nat"

text \<open>
  \<^verbatim>\<open>Promise.all\<close>: a slot per promise, written when that promise fulfils; the
  combined promise rejects with the first rejection and fulfils with the array of slots
  once nothing is pending. A slot never written would be \<^verbatim>\<open>undefined\<close>; none
  is left when the array is handed out (lemma \<open>settle_all_fulfilled\<close>).
\<close>

function settle_all ::
  "timing \<Rightarrow> (error + 'a) list \<Rightarrow> nat list \<Rightarrow> 'a option list \<Rightarrow> error + 'a list" where
  "settle_all tm promises pending slots =
     (if pending = [] then Inr (List.map_filter (\<lambda>slot. slot) slots)
      else
        let i = pending ! (tm pending mod length pending) in
        case promises ! i of
          Inl e \<Rightarrow> Inl e
        | Inr v \<Rightarrow> settle_all tm promises (remove1 i pending) (slots[i := Some v]))"
  by pat_completeness auto
termination
proof (relation "measure (\<lambda>(tm, promises, pending, slots). length pending)")
  show "wf (measure (\<lambda>(tm, promises, pending, slots). length pending))"
    by simp
next
  fix tm :: timing and promises :: "(error + 'a) list" and pending :: "nat list"
    and slots :: "'a option list" and i :: nat and v :: 'a
  assume ne: "pending \<noteq> []" and i: "i = pending ! (tm pending mod length pending)"
  from ne have "tm pending mod length pending < length pending"
    by simp
  with i have "i \<in> set pending"
    by simp
  with ne show "((tm, promises, remove1 i pending, slots[i := Some v]),
                 (tm, promises, pending, slots))
         \<in> measure (\<lambda>(tm, promises, pending, slots). length pending)"
    by (simp add: length_remove1)
qed

definition promise_all :: "timing \<Rightarrow> (error + 'a) list \<Rightarrow> error + 'a list" where
  "promise_all tm promises =
     settle_all tm promises [0..<length promises] (replicate (length promises) None)"

text \<open>
  The function itself: the outcome of \<^verbatim>\<open>await Promise.all(...)\<close> (\<open>Inl\<close>: the
  returned promise rejects) and the client's history afterwards.
\<close>

definition getBatchTxStatus ::
  "requester \<Rightarrow> timing \<Rightarrow> history \<Rightarrow> hash_index list
     \<Rightarrow> (error + InnerTxStatus list) \<times> history" where
  "getBatchTxStatus request tm h innerTxHashes =
     (let (outcomes, h') = sendLookups request h innerTxHashes;
          promises = map2 lookupStatus innerTxHashes outcomes
      in (promise_all tm promises, h'))"

section \<open>Configuration (src/config/env.ts, src/config/network.ts)\<close>

text \<open>The environment after validation by the schema (the fields the batch script
  reads), the table of networks and \<^verbatim>\<open>getNetworkUrl\<close>.\<close>

datatype EnvTypes = devnet | testnet | mainnet

record env =
  NODE_ENV :: EnvTypes
  ISUEER_SEED :: string
  USER_SEED :: string

record NetworkType =
  rpc :: string
  ws :: string
  explorer :: string

fun networks :: "EnvTypes \<Rightarrow> NetworkType" where
  "networks mainnet =
     \<lparr>rpc = ''https://xrplcluster.com'', ws = ''wss://xrplcluster.com'',
      explorer = ''https://livenet.xrpl.org''\<rparr>"
| "networks testnet =
     \<lparr>rpc = ''https://s.altnet.rippletest.net:51234'',
      ws = ''wss://s.altnet.rippletest.net:51233'',
      explorer = ''https://testnet.xrpl.org''\<rparr>"
| "networks devnet =
     \<lparr>rpc = ''https://s.devnet.rippletest.net:51234'',
      ws = ''wss://s.devnet.rippletest.net:51233'',
      explorer = ''https://devnet.xrpl.org''\<rparr>"

definition getNetworkUrl :: "env \<Rightarrow> NetworkType" where
  "getNetworkUrl e = networks (NODE_ENV e)"

section \<open>batchAllOrNothing (src/xrpl/Batch/batchAllOrNothing.ts)\<close>

text \<open>
  What the script uses of the SDK, as parameters. The operations of the client answer as a
  function of the client's history; \<^verbatim>\<open>Wallet.fromSeed\<close>, \<^verbatim>\<open>xrpToDrops\<close>,
  \<^verbatim>\<open>wallet.sign\<close> and \<^verbatim>\<open>hashes.hashSignedTx\<close> are functions of
  their arguments. Each of them may throw.
\<close>

record Wallet =
  address :: string

record SignedTx =
  tx_blob :: string

record sdk =
  fromSeed :: "string \<Rightarrow> error + Wallet"
  xrpToDrops :: "string \<Rightarrow> error + string"
  sign :: "Wallet \<Rightarrow> jsval \<Rightarrow> error + SignedTx"
  hashSignedTx :: "jsval \<Rightarrow> error + string"
  connect :: "history \<Rightarrow> error + unit"
  autofill :: "history \<Rightarrow> jsval \<Rightarrow> error + jsval"
  submitAndWait :: "history \<Rightarrow> string \<Rightarrow> error + tx_response"
  request :: requester
  disconnect :: "history \<Rightarrow> error + unit"

text \<open>One element of the literal \<^verbatim>\<open>innerTransactions\<close> (lines 57 to 90), given
  its amount in drops, and the batch transaction built from the list (lines 100 to 105).
  The literal is an array of object literals (\<^verbatim>\<open>Payment[]\<close>): each element is
  kept as the list of its properties.\<close>

definition payment :: "Wallet \<Rightarrow> Wallet \<Rightarrow> string \<Rightarrow> (string \<times> jsval) list" where
  "payment issuer user drops =
     [(''TransactionType'', JString ''Payment''),
      (''Account'', JString (address issuer)),
      (''Destination'', JString (address user)),
      (''Amount'', JString drops),
      (''Flags'', JNumber 0x40000000),
      (''SigningPubKey'', JString []),
      (''Fee'', JString ''0'')]"

definition batchTxOf :: "Wallet \<Rightarrow> (string \<times> jsval) list list \<Rightarrow> jsval" where
  "batchTxOf issuer innerTransactions =
     JObject [(''TransactionType'', JString ''Batch''),
              (''Account'', JString (address issuer)),
              (''Flags'', JNumber 0x00010000),
              (''RawTransactions'',
                 JArray (map (\<lambda>tx. JObject [(''RawTransaction'', JObject tx)])
                           innerTransactions))]"

text \<open>
  Lines 45 to 123 of the \<^verbatim>\<open>try\<close> block: wallets, connection, the batch
  transaction, autofill, signature, submission and the check of the outer result. The
  value is the validated response \<^verbatim>\<open>result\<close> together with the literal
  \<^verbatim>\<open>innerTransactions\<close>, or the error thrown on the way; the history records the
  calls made on the client, also the one that threw.
\<close>

definition submitBatch ::
  "sdk \<Rightarrow> env \<Rightarrow> history
     \<Rightarrow> (error + tx_response \<times> (string \<times> jsval) list list) \<times> history" where
  "submitBatch S e h0 =
     (case fromSeed S (ISUEER_SEED e) of Inl err \<Rightarrow> (Inl err, h0) | Inr issuer \<Rightarrow>
     (case fromSeed S (USER_SEED e) of Inl err \<Rightarrow> (Inl err, h0) | Inr user \<Rightarrow>
     (let h1 = h0 @ [Connect] in
     (case connect S h0 of Inl err \<Rightarrow> (Inl err, h1) | Inr u \<Rightarrow>
     (case xrpToDrops S ''1'' of Inl err \<Rightarrow> (Inl err, h1) | Inr drops1 \<Rightarrow>
     (case xrpToDrops S ''0.5'' of Inl err \<Rightarrow> (Inl err, h1) | Inr drops2 \<Rightarrow>
     (let innerTransactions = [payment issuer user drops1, payment issuer user drops2];
          batchTx = batchTxOf issuer innerTransactions;
          h2 = h1 @ [Autofill batchTx] in
     (case autofill S h1 batchTx of Inl err \<Rightarrow> (Inl err, h2) | Inr prepared \<Rightarrow>
     (case sign S issuer prepared of Inl err \<Rightarrow> (Inl err, h2) | Inr signed \<Rightarrow>
     (let h3 = h2 @ [SubmitAndWait (tx_blob signed)] in
     (case submitAndWait S h2 (tx_blob signed) of Inl err \<Rightarrow> (Inl err, h3) | Inr res \<Rightarrow>
     (case validateTransactionResult res of
        (Inl err, res') \<Rightarrow> (Inl err, h3)
      | (Inr u, res') \<Rightarrow> (Inr (res', innerTransactions), h3)))))))))))))"

text \<open>
  Lines 135 and 136: \<^verbatim>\<open>batchTxData.result.tx_json?.RawTransactions\<close>. The
  optional chaining gives \<^verbatim>\<open>undefined\<close> for a missing \<^verbatim>\<open>tx_json\<close>.
\<close>

definition rawTransactionsOf :: "tx_response \<Rightarrow> jsval" where
  "rawTransactionsOf batchTxData =
     (case js_get (tx_json (result batchTxData)) ''RawTransactions'' of
        Inl err \<Rightarrow> JUndefined
      | Inr v \<Rightarrow> v)"

text \<open>
  The loop of lines 146 to 159 over the elements of the array, from position \<open>i\<close> on,
  appending to \<open>innerTxHashes\<close>:
  \<^verbatim>\<open>
  const innerTx = rawTransactions[i].RawTransaction;
  if (innerTx) {
    try {
      const txHash = hashes.hashSignedTx(innerTx);
      innerTxHashes.push({ hash: txHash, index: i + 1 });
    } catch (error) { console.error(...); }
  }
  \<close>
  The property read is outside the inner \<^verbatim>\<open>try\<close>: on a \<^verbatim>\<open>null\<close>
  element it throws out of the loop.
\<close>

fun collectInnerTxHashes ::
  "(jsval \<Rightarrow> error + string) \<Rightarrow> jsval list \<Rightarrow> nat \<Rightarrow> hash_index list
     \<Rightarrow> error + hash_index list" where
  "collectInnerTxHashes hashTx [] i innerTxHashes = Inr innerTxHashes"
| "collectInnerTxHashes hashTx (raw # raws) i innerTxHashes =
     (case js_get raw ''RawTransaction'' of
        Inl err \<Rightarrow> Inl err
      | Inr innerTx \<Rightarrow>
          if truthy innerTx then
            (case hashTx innerTx of
               Inr txHash \<Rightarrow>
                 collectInnerTxHashes hashTx raws (i + 1)
                   (innerTxHashes @ [\<lparr>hash = txHash, index = int i + 1\<rparr>])
             | Inl err \<Rightarrow> collectInnerTxHashes hashTx raws (i + 1) innerTxHashes)
          else collectInnerTxHashes hashTx raws (i + 1) innerTxHashes)"

text \<open>
  Lines 188 to 201, for one failed transaction:
  \<^verbatim>\<open>
  const originalTx = innerTransactions[failedTx.index - 1];
  if (originalTx) { ... four console.log ... }
  \<close>
  The array has an element at \<open>index - 1\<close> when \<open>1 \<le> index \<le> length\<close>; otherwise the
  read gives \<^verbatim>\<open>undefined\<close> and nothing is printed. A property the object
  lacks reads as \<^verbatim>\<open>undefined\<close>.
\<close>

definition failedTxLines :: "(string \<times> jsval) list list \<Rightarrow> InnerTxStatus \<Rightarrow> line list" where
  "failedTxLines innerTransactions failedTx =
     (if 1 \<le> index failedTx \<and> index failedTx \<le> int (length innerTransactions) then
        (let originalTx = innerTransactions ! nat (index failedTx - 1) in
         [FailedTxLines (index failedTx) (status failedTx) (hash failedTx)
            (case map_of originalTx ''Amount'' of None \<Rightarrow> JUndefined | Some v \<Rightarrow> v)
            (case map_of originalTx ''Destination'' of None \<Rightarrow> JUndefined | Some v \<Rightarrow> v)])
      else [])"

text \<open>
  Lines 128 to 210: the batch transaction is fetched back, the hashes of its inner
  transactions are computed and looked up, the statuses are printed and the verdict is
  returned. The literal \<^verbatim>\<open>innerTransactions\<close> is in scope here; the script reads
  it only to print the amount and destination of a failed transaction (line 189).
\<close>

definition checkInnerTransactions ::
  "sdk \<Rightarrow> timing \<Rightarrow> tx_response \<Rightarrow> (string \<times> jsval) list list \<Rightarrow> history
     \<Rightarrow> (error + bool) \<times> history" where
  "checkInnerTransactions S tm res innerTransactions h =
     (let req = \<lparr>command = ''tx'', transaction = tx_hash (result res)\<rparr>;
          h1 = h @ [Request req] in
      case request S h req of Inl err \<Rightarrow> (Inl err, h1) | Inr batchTxData \<Rightarrow>
     (case rawTransactionsOf batchTxData of
        JArray raws \<Rightarrow>
          (case collectInnerTxHashes (hashSignedTx S) raws 0 [] of
             Inl err \<Rightarrow> (Inl err, h1)
           | Inr innerTxHashes \<Rightarrow>
               if length innerTxHashes = 0 then (Inr False, h1)
               else
                 (case getBatchTxStatus (request S) tm h1 innerTxHashes of
                    (Inl err, h2) \<Rightarrow> (Inl err, h2)
                  | (Inr innerTxStatuses, h2) \<Rightarrow>
                      (let h3 = h2 @ map (\<lambda>tx. ConsoleLog (StatusLine (successful tx)
                                                           (index tx) (status tx)))
                                     innerTxStatuses;
                           failedTxs = filter (\<lambda>tx. \<not> successful tx) innerTxStatuses in
                       if length failedTxs > 0 then
                         (Inr False,
                          h3 @ map ConsoleLog
                                 (concat (map (failedTxLines innerTransactions) failedTxs)))
                       else (Inr True, h3))))
      | other \<Rightarrow> (Inr False, h1)))"

text \<open>
  The function: the client is created before the \<^verbatim>\<open>try\<close>; the
  \<^verbatim>\<open>catch\<close> turns every error of the block into \<^verbatim>\<open>return false\<close>; the
  \<^verbatim>\<open>finally\<close> calls \<^verbatim>\<open>client.disconnect()\<close>, whose own error, if any,
  replaces the return value. \<^verbatim>\<open>getNetworkUrl\<close> is a table lookup and the
  constructor only stores the URL, which is one of the three of the table.
\<close>

definition batchAllOrNothing :: "sdk \<Rightarrow> env \<Rightarrow> timing \<Rightarrow> (error + bool) \<times> history" where
  "batchAllOrNothing S e tm =
     (let network = getNetworkUrl e;
          h0 = [NewClient (ws network)];
          (tried, h1) =
            (case submitBatch S e h0 of
               (Inl err, h) \<Rightarrow> (Inl err, h)
             | (Inr (res, innerTransactions), h) \<Rightarrow>
                 checkInnerTransactions S tm res innerTransactions h);
          returned = (case tried of Inl err \<Rightarrow> False | Inr b \<Rightarrow> b)
      in case disconnect S h1 of
           Inl err \<Rightarrow> (Inl err, h1 @ [Disconnect])
         | Inr u \<Rightarrow> (Inr returned, h1 @ [Disconnect]))"

section \<open>A sample node\<close>

text \<open>
  A concrete node on which the theorems below are run. It knows three transactions:
  \<^verbatim>\<open>AAA\<close> succeeded, \<^verbatim>\<open>BBB\<close> failed for lack of funds, and the metadata of
  \<^verbatim>\<open>CCC\<close> comes as a binary blob (a string). Any other hash is not found: the
  lookup throws.
\<close>

definition responseOf :: "string \<Rightarrow> jsval \<Rightarrow> jsval \<Rightarrow> tx_response" where
  "responseOf h m j = \<lparr>result = \<lparr>tx_hash = h, meta = m, tx_json = j\<rparr>\<rparr>"

definition sample_node :: requester where
  "sample_node h req =
     (if transaction req = ''AAA'' then
        Inr (responseOf ''AAA'' (JObject [(''TransactionResult'', JString ''tesSUCCESS'')])
               JUndefined)
      else if transaction req = ''BBB'' then
        Inr (responseOf ''BBB''
               (JObject [(''TransactionResult'', JString ''tecUNFUNDED_PAYMENT'')]) JUndefined)
      else if transaction req = ''CCC'' then
        Inr (responseOf ''CCC'' (JString ''201C00000000'') JUndefined)
      else Inl (SdkError ''txnNotFound''))"

definition sample_pairs :: "hash_index list" where
  "sample_pairs =
     [\<lparr>hash = ''BBB'', index = 2\<rparr>, \<lparr>hash = ''DDD'', index = 4\<rparr>,
      \<lparr>hash = ''AAA'', index = 1\<rparr>, \<lparr>hash = ''CCC'', index = 3\<rparr>]"

text \<open>A timing under which the lookup sent last always settles first.\<close>

definition last_first :: timing where
  "last_first pending = length pending - 1"

text \<open>
  A sample SDK for the whole script. The batch is recorded under the hash
  \<^verbatim>\<open>BATCH\<close> with two inner transactions, to which the node has added sequence
  numbers; \<^verbatim>\<open>hashSignedTx\<close> maps the one with sequence 7 to \<^verbatim>\<open>AAA\<close>,
  any other with a sequence number to \<^verbatim>\<open>BBB\<close>, and throws without one (as on
  the elements of the literal \<^verbatim>\<open>innerTransactions\<close>).
\<close>

definition sample_raws :: "jsval list" where
  "sample_raws =
     [JObject [(''RawTransaction'', JObject [(''Sequence'', JNumber 7)])],
      JObject [(''RawTransaction'', JObject [(''Sequence'', JNumber 8)])]]"

definition sample_batchTxData :: tx_response where
  "sample_batchTxData =
     responseOf ''BATCH'' (JObject [(''TransactionResult'', JString ''tesSUCCESS'')])
       (JObject [(''RawTransactions'', JArray sample_raws)])"

definition sample_sdk :: "unit sdk_scheme" where
  "sample_sdk =
     \<lparr>fromSeed = (\<lambda>seed. if take 1 seed = ''s'' then Inr \<lparr>address = CHR ''r'' # seed\<rparr>
                          else Inl (SdkError ''invalid seed'')),
      xrpToDrops = (\<lambda>xrp. if xrp = ''1'' then Inr ''1000000''
                           else if xrp = ''0.5'' then Inr ''500000''
                           else Inl (SdkError ''invalid amount'')),
      sign = (\<lambda>wallet tx. Inr \<lparr>tx_blob = ''1200'' @ address wallet\<rparr>),
      hashSignedTx =
        (\<lambda>tx. case js_get tx ''Sequence'' of
                 Inr (JNumber n) \<Rightarrow> Inr (if n = 7 then ''AAA'' else ''BBB'')
               | other \<Rightarrow> Inl (SdkError ''not a transaction'')),
      connect = (\<lambda>h. Inr ()),
      autofill = (\<lambda>h tx. Inr tx),
      submitAndWait =
        (\<lambda>h blob. Inr (responseOf ''BATCH''
                          (JObject [(''TransactionResult'', JString ''tesSUCCESS'')])
                          JUndefined)),
      request =
        (\<lambda>h req. if transaction req = ''BATCH'' then Inr sample_batchTxData
                  else sample_node h req),
      disconnect = (\<lambda>h. Inr ())\<rparr>"

definition sample_env :: env where
  "sample_env = \<lparr>NODE_ENV = devnet, ISUEER_SEED = ''sIssuer'', USER_SEED = ''sUser''\<rparr>"

text \<open>The same environment with a user seed that \<^verbatim>\<open>Wallet.fromSeed\<close> rejects.\<close>

definition bad_seed_env :: env where
  "bad_seed_env = \<lparr>NODE_ENV = testnet, ISUEER_SEED = ''sIssuer'', USER_SEED = ''xUser''\<rparr>"

section \<open>Properties of the status resolver\<close>

subsection \<open>Sending the lookups\<close>

lemma sendLookups_length: "length (fst (sendLookups node h xs)) = length xs"
  by (induction xs arbitrary: h) (simp_all add: Let_def split_beta)

lemma sendLookups_history:
  "snd (sendLookups node h xs) =
     h @ map (\<lambda>tx. Request \<lparr>command = ''tx'', transaction = hash tx\<rparr>) xs"
  by (induction xs arbitrary: h) (simp_all add: Let_def split_beta)

lemma sendLookups_nth:
  "i < length xs \<Longrightarrow>
   fst (sendLookups node h xs) ! i =
     node (h @ map (\<lambda>tx. Request \<lparr>command = ''tx'', transaction = hash tx\<rparr>) (take i xs))
       \<lparr>command = ''tx'', transaction = hash (xs ! i)\<rparr>"
proof (induction xs arbitrary: h i)
  case Nil
  then show ?case by simp
next
  case (Cons x xs)
  show ?case
  proof (cases i)
    case 0
    then show ?thesis by (simp add: Let_def split_beta)
  next
    case (Suc j)
    with Cons.prems have "j < length xs" by simp
    from Cons.IH[OF this, of "h @ [Request \<lparr>command = ''tx'', transaction = hash x\<rparr>]"] Suc
    show ?thesis by (simp add: Let_def split_beta)
  qed
qed

lemma lookupOutcomes_length: "length (lookupOutcomes node h xs) = length xs"
  by (simp add: lookupOutcomes_def sendLookups_length)

text \<open>The lookup of the pair at position \<open>i\<close> is answered by the node as it is after
  the lookups of the pairs before it have been sent.\<close>

lemma lookupOutcomes_nth:
  "i < length xs \<Longrightarrow>
   lookupOutcomes node h xs ! i =
     node (h @ map (\<lambda>tx. Request \<lparr>command = ''tx'', transaction = hash tx\<rparr>) (take i xs))
       \<lparr>command = ''tx'', transaction = hash (xs ! i)\<rparr>"
  by (simp add: lookupOutcomes_def sendLookups_nth)

subsection \<open>One callback\<close>

lemma lookupStatus_thrown:
  "lookupStatus tx (Inl err) =
     Inr \<lparr>hash = hash tx, index = index tx, successful = False,
          status = JString ''not validated''\<rparr>"
  by (simp add: lookupStatus_def)

lemma lookupStatus_response:
  "lookupStatus tx (Inr res) =
     Inr \<lparr>hash = hash tx, index = index tx,
          successful = (\<exists>fs. meta (result res) = JObject fs \<and>
                         map_of fs ''TransactionResult'' = Some (JString ''tesSUCCESS'')),
          status = (case meta (result res) of
                      JObject fs \<Rightarrow> (case map_of fs ''TransactionResult'' of
                                      None \<Rightarrow> JString ''unknown'' | Some code \<Rightarrow> code)
                    | other \<Rightarrow> JString ''unknown'')\<rparr>"
  by (cases "meta (result res)")
     (auto simp add: lookupStatus_def statusOfResponse_def split: option.splits)

lemma lookupStatus_fulfilled: "\<exists>entry. lookupStatus tx outcome = Inr entry"
  by (cases outcome) (simp_all add: lookupStatus_thrown lookupStatus_response)

lemma lookupStatus_keeps_pair:
  "lookupStatus tx outcome = Inr entry \<Longrightarrow> hash entry = hash tx \<and> index entry = index tx"
  by (cases outcome) (auto simp add: lookupStatus_thrown lookupStatus_response)

subsection \<open>Promise.all on promises that all fulfil\<close>

lemma settle_all_fulfilled:
  assumes "distinct pending" and "set pending \<subseteq> {..<length vs}"
    and "slots = map (\<lambda>i. if i \<in> set pending then None else Some (vs ! i)) [0..<length vs]"
  shows "settle_all tm (map Inr vs) pending slots = Inr vs"
  using assms
proof (induction "length pending" arbitrary: pending slots)
  case 0
  then have "slots = map Some vs"
    by (auto intro!: nth_equalityI)
  then have "List.map_filter (\<lambda>slot. slot) slots = vs"
    by (simp add: List.map_filter_def comp_def)
  with 0 show ?case by simp
next
  case (Suc n)
  define i where "i = pending ! (tm pending mod length pending)"
  from Suc.hyps(2) have ne: "pending \<noteq> []" by auto
  then have "tm pending mod length pending < length pending" by simp
  then have mem: "i \<in> set pending" by (simp add: i_def)
  with Suc.prems have lt: "i < length vs" by auto
  have len: "n = length (remove1 i pending)"
    using Suc.hyps(2) mem by (simp add: length_remove1)
  have d: "distinct (remove1 i pending)" using Suc.prems by simp
  have s: "set (remove1 i pending) \<subseteq> {..<length vs}" using Suc.prems by auto
  have sl: "slots[i := Some (vs ! i)] =
      map (\<lambda>j. if j \<in> set (remove1 i pending) then None else Some (vs ! j)) [0..<length vs]"
    using Suc.prems mem lt by (auto intro!: nth_equalityI simp: nth_list_update)
  have "settle_all tm (map Inr vs) (remove1 i pending) (slots[i := Some (vs ! i)]) = Inr vs"
    by (rule Suc.hyps(1)[OF len d s sl])
  with ne lt show ?case
    by (subst settle_all.simps) (simp add: i_def[symmetric] Let_def)
qed

lemma promise_all_fulfilled: "promise_all tm (map Inr vs) = Inr vs"
  unfolding promise_all_def
  by (rule settle_all_fulfilled) (auto intro!: nth_equalityI)

subsection \<open>The resolver as a whole\<close>

lemma getBatchTxStatus_entries:
  "\<exists>rs. getBatchTxStatus node tm h xs =
          (Inr rs, h @ map (\<lambda>tx. Request \<lparr>command = ''tx'', transaction = hash tx\<rparr>) xs) \<and>
        length rs = length xs \<and>
        (\<forall>i<length xs. lookupStatus (xs ! i) (lookupOutcomes node h xs ! i) = Inr (rs ! i))"
proof -
  define promises where "promises = map2 lookupStatus xs (lookupOutcomes node h xs)"
  have "\<forall>p \<in> set promises. \<exists>entry. p = Inr entry"
    using lookupStatus_fulfilled by (auto simp add: promises_def)
  then have "\<exists>rs. promises = map Inr rs"
    by (simp add: ex_map_conv)
  then obtain rs where rs: "promises = map Inr rs" ..
  have len: "length rs = length xs"
    using arg_cong[OF rs, of length] by (simp add: promises_def lookupOutcomes_length)
  have res: "getBatchTxStatus node tm h xs =
       (Inr rs, h @ map (\<lambda>tx. Request \<lparr>command = ''tx'', transaction = hash tx\<rparr>) xs)"
    using rs sendLookups_history[of node h xs]
    by (simp add: getBatchTxStatus_def lookupOutcomes_def promises_def split_beta
          promise_all_fulfilled)
  have nth: "lookupStatus (xs ! i) (lookupOutcomes node h xs ! i) = Inr (rs ! i)"
    if "i < length xs" for i
  proof -
    from that have "promises ! i = lookupStatus (xs ! i) (lookupOutcomes node h xs ! i)"
      by (simp add: promises_def lookupOutcomes_length)
    moreover from that len have "promises ! i = Inr (rs ! i)"
      by (simp add: rs)
    ultimately show ?thesis by simp
  qed
  from res len nth show ?thesis by blast
qed

lemma getBatchTxStatus_zipped:
  "\<exists>rs. getBatchTxStatus node tm h xs =
          (Inr rs, h @ map (\<lambda>tx. Request \<lparr>command = ''tx'', transaction = hash tx\<rparr>) xs) \<and>
        map Inr rs = map2 lookupStatus xs (lookupOutcomes node h xs)"
proof -
  obtain rs where res: "getBatchTxStatus node tm h xs =
       (Inr rs, h @ map (\<lambda>tx. Request \<lparr>command = ''tx'', transaction = hash tx\<rparr>) xs)"
    and len: "length rs = length xs"
    and nth: "\<And>j. j < length xs \<Longrightarrow>
           lookupStatus (xs ! j) (lookupOutcomes node h xs ! j) = Inr (rs ! j)"
    using getBatchTxStatus_entries[of node tm h xs] by blast
  have "map Inr rs = map2 lookupStatus xs (lookupOutcomes node h xs)"
    using len nth by (auto intro!: nth_equalityI simp add: lookupOutcomes_length)
  with res show ?thesis by simp
qed

lemma getBatchTxStatus_historyD:
  "getBatchTxStatus node tm h xs = (r, h') \<Longrightarrow>
   h' = h @ map (\<lambda>tx. Request \<lparr>command = ''tx'', transaction = hash tx\<rparr>) xs"
  using getBatchTxStatus_entries[of node tm h xs] by auto

section \<open>The claims about the status resolver\<close>

text \<open>
  Claim C1. For a pair whose lookup returns a response, the entry of \<^verbatim>\<open>getBatchTxStatus\<close>
  has \<open>successful = true\<close> if and only if the metadata of the response is an object
  with a \<^verbatim>\<open>TransactionResult\<close> field equal to \<^verbatim>\<open>'tesSUCCESS'\<close>; when the
  field is present the status of the entry is its value, so that any other code gives
  \<open>successful = false\<close> with that code as status.
\<close>

theorem getBatchTxStatus_successful_iff_tesSUCCESS:
  assumes "i < length xs" and "lookupOutcomes node h xs ! i = Inr res"
  shows "\<exists>rs. fst (getBatchTxStatus node tm h xs) = Inr rs \<and>
           (successful (rs ! i) \<longleftrightarrow>
              (\<exists>fs. meta (result res) = JObject fs \<and>
                    map_of fs ''TransactionResult'' = Some (JString ''tesSUCCESS''))) \<and>
           (\<forall>fs code. meta (result res) = JObject fs \<and>
                       map_of fs ''TransactionResult'' = Some code \<longrightarrow>
                status (rs ! i) = code \<and>
                (code \<noteq> JString ''tesSUCCESS'' \<longrightarrow> \<not> successful (rs ! i)))"
proof -
  obtain rs where res: "getBatchTxStatus node tm h xs =
       (Inr rs, h @ map (\<lambda>tx. Request \<lparr>command = ''tx'', transaction = hash tx\<rparr>) xs)"
    and len: "length rs = length xs"
    and nth: "\<And>j. j < length xs \<Longrightarrow>
           lookupStatus (xs ! j) (lookupOutcomes node h xs ! j) = Inr (rs ! j)"
    using getBatchTxStatus_entries[of node tm h xs] by blast
  from nth[OF assms(1)] assms(2) have "lookupStatus (xs ! i) (Inr res) = Inr (rs ! i)"
    by simp
  then have entry: "rs ! i =
     \<lparr>hash = hash (xs ! i), index = index (xs ! i),
      successful = (\<exists>fs. meta (result res) = JObject fs \<and>
                     map_of fs ''TransactionResult'' = Some (JString ''tesSUCCESS'')),
      status = (case meta (result res) of
                  JObject fs \<Rightarrow> (case map_of fs ''TransactionResult'' of
                                  None \<Rightarrow> JString ''unknown'' | Some code \<Rightarrow> code)
                | other \<Rightarrow> JString ''unknown'')\<rparr>"
    by (simp add: lookupStatus_response)
  have "successful (rs ! i) \<longleftrightarrow>
          (\<exists>fs. meta (result res) = JObject fs \<and>
                map_of fs ''TransactionResult'' = Some (JString ''tesSUCCESS''))"
    by (subst entry) simp
  moreover have "status (rs ! i) = code \<and>
                (code \<noteq> JString ''tesSUCCESS'' \<longrightarrow> \<not> successful (rs ! i))"
    if "meta (result res) = JObject fs \<and> map_of fs ''TransactionResult'' = Some code"
    for fs code
    using that by (subst (1 2) entry) auto
  ultimately show ?thesis using res by auto
qed

theorem getBatchTxStatus_successful_iff_tesSUCCESS_witness:
  "(2::nat) < length sample_pairs \<and>
   lookupOutcomes sample_node [] sample_pairs ! 2 =
     Inr (responseOf ''AAA'' (JObject [(''TransactionResult'', JString ''tesSUCCESS'')])
            JUndefined) \<and>
   (\<exists>rs. fst (getBatchTxStatus sample_node last_first [] sample_pairs) = Inr rs \<and>
         successful (rs ! 2) \<and> status (rs ! 2) = JString ''tesSUCCESS'')"
proof -
  have i: "(2::nat) < length sample_pairs"
    by (simp add: sample_pairs_def)
  have o: "lookupOutcomes sample_node [] sample_pairs ! 2 =
     Inr (responseOf ''AAA'' (JObject [(''TransactionResult'', JString ''tesSUCCESS'')])
            JUndefined)"
    by (simp add: lookupOutcomes_def sample_pairs_def sample_node_def Let_def)
  from getBatchTxStatus_successful_iff_tesSUCCESS[OF i o, of last_first]
  have "\<exists>rs. fst (getBatchTxStatus sample_node last_first [] sample_pairs) = Inr rs \<and>
         successful (rs ! 2) \<and> status (rs ! 2) = JString ''tesSUCCESS''"
    by (auto simp add: responseOf_def)
  with i o show ?thesis by blast
qed

text \<open>
  Claim C2. For every list of \<open>N\<close> pairs, in any order, and whatever the lookups do,
  \<^verbatim>\<open>getBatchTxStatus\<close> returns a list of exactly \<open>N\<close> records (its promise never
  rejects), and the record at each position carries the index and the hash of the pair at
  that position, whatever the order in which the lookups complete.
\<close>

theorem getBatchTxStatus_preserves_order:
  "\<exists>rs. fst (getBatchTxStatus node tm h xs) = Inr rs \<and> length rs = length xs \<and>
        (\<forall>i<length xs. index (rs ! i) = index (xs ! i) \<and> hash (rs ! i) = hash (xs ! i))"
proof -
  obtain rs where res: "getBatchTxStatus node tm h xs =
       (Inr rs, h @ map (\<lambda>tx. Request \<lparr>command = ''tx'', transaction = hash tx\<rparr>) xs)"
    and len: "length rs = length xs"
    and nth: "\<And>j. j < length xs \<Longrightarrow>
           lookupStatus (xs ! j) (lookupOutcomes node h xs ! j) = Inr (rs ! j)"
    using getBatchTxStatus_entries[of node tm h xs] by blast
  have "index (rs ! i) = index (xs ! i) \<and> hash (rs ! i) = hash (xs ! i)"
    if "i < length xs" for i
    using lookupStatus_keeps_pair[OF nth[OF that]] by simp
  with res len show ?thesis by auto
qed

theorem getBatchTxStatus_preserves_order_witness:
  "\<exists>rs. fst (getBatchTxStatus sample_node last_first [] sample_pairs) = Inr rs \<and>
        length rs = 4 \<and>
        map index rs = [2, 4, 1, 3] \<and> map hash rs = [''BBB'', ''DDD'', ''AAA'', ''CCC'']"
proof -
  obtain rs where rs: "fst (getBatchTxStatus sample_node last_first [] sample_pairs) = Inr rs"
    and len: "length rs = length sample_pairs"
    and nth: "\<forall>i<length sample_pairs.
        index (rs ! i) = index (sample_pairs ! i) \<and> hash (rs ! i) = hash (sample_pairs ! i)"
    using getBatchTxStatus_preserves_order[of sample_node last_first "[]" sample_pairs]
    by blast
  have l4: "length rs = 4"
    using len by (simp add: sample_pairs_def)
  have "map index rs = map index sample_pairs"
    using len nth by (auto intro!: nth_equalityI)
  moreover have "map hash rs = map hash sample_pairs"
    using len nth by (auto intro!: nth_equalityI)
  ultimately show ?thesis
    using rs l4 by (simp add: sample_pairs_def)
qed

text \<open>
  Claim C3. When the lookup of one pair throws, the exception is caught in that pair's
  callback and the pair's entry is \<open>{successful: false, status: "not validated"}\<close>; the
  promise of \<^verbatim>\<open>getBatchTxStatus\<close> still fulfils, every lookup has been sent, and
  the entry of every other pair is what the callback makes of that pair and of its own
  lookup.
\<close>

theorem getBatchTxStatus_isolates_failure:
  assumes "i < length xs" and "lookupOutcomes node h xs ! i = Inl err"
  shows "\<exists>rs. getBatchTxStatus node tm h xs =
            (Inr rs, h @ map (\<lambda>tx. Request \<lparr>command = ''tx'', transaction = hash tx\<rparr>) xs) \<and>
          length rs = length xs \<and>
          rs ! i = \<lparr>hash = hash (xs ! i), index = index (xs ! i), successful = False,
                    status = JString ''not validated''\<rparr> \<and>
          (\<forall>j<length xs. j \<noteq> i \<longrightarrow>
             Inr (rs ! j) = lookupStatus (xs ! j) (lookupOutcomes node h xs ! j))"
proof -
  obtain rs where res: "getBatchTxStatus node tm h xs =
       (Inr rs, h @ map (\<lambda>tx. Request \<lparr>command = ''tx'', transaction = hash tx\<rparr>) xs)"
    and len: "length rs = length xs"
    and nth: "\<And>j. j < length xs \<Longrightarrow>
           lookupStatus (xs ! j) (lookupOutcomes node h xs ! j) = Inr (rs ! j)"
    using getBatchTxStatus_entries[of node tm h xs] by blast
  from nth[OF assms(1)] assms(2)
  have "rs ! i = \<lparr>hash = hash (xs ! i), index = index (xs ! i), successful = False,
                   status = JString ''not validated''\<rparr>"
    by (simp add: lookupStatus_thrown)
  with res len nth show ?thesis by auto
qed

theorem getBatchTxStatus_isolates_failure_witness:
  "(1::nat) < length sample_pairs \<and>
   lookupOutcomes sample_node [] sample_pairs ! 1 = Inl (SdkError ''txnNotFound'') \<and>
   fst (getBatchTxStatus sample_node last_first [] sample_pairs) =
     Inr [\<lparr>hash = ''BBB'', index = 2, successful = False,
            status = JString ''tecUNFUNDED_PAYMENT''\<rparr>,
          \<lparr>hash = ''DDD'', index = 4, successful = False,
            status = JString ''not validated''\<rparr>,
          \<lparr>hash = ''AAA'', index = 1, successful = True, status = JString ''tesSUCCESS''\<rparr>,
          \<lparr>hash = ''CCC'', index = 3, successful = False, status = JString ''unknown''\<rparr>]"
proof -
  have i: "(1::nat) < length sample_pairs"
    by (simp add: sample_pairs_def)
  have o: "lookupOutcomes sample_node [] sample_pairs ! 1 = Inl (SdkError ''txnNotFound'')"
    by (simp add: lookupOutcomes_def sample_pairs_def sample_node_def Let_def)
  obtain rs where rs: "fst (getBatchTxStatus sample_node last_first [] sample_pairs) = Inr rs"
    and len: "length rs = length sample_pairs"
    and one: "rs ! 1 = \<lparr>hash = hash (sample_pairs ! 1), index = index (sample_pairs ! 1),
                         successful = False, status = JString ''not validated''\<rparr>"
    and others: "\<forall>j<length sample_pairs. j \<noteq> 1 \<longrightarrow>
        Inr (rs ! j) = lookupStatus (sample_pairs ! j)
                         (lookupOutcomes sample_node [] sample_pairs ! j)"
    using getBatchTxStatus_isolates_failure[OF i o, of last_first] by auto
  have l4: "length rs = 4"
    using len by (simp add: sample_pairs_def)
  have e0: "rs ! 0 = \<lparr>hash = ''BBB'', index = 2, successful = False,
                       status = JString ''tecUNFUNDED_PAYMENT''\<rparr>"
    using others[rule_format, of 0]
    by (simp add: lookupOutcomes_def sample_pairs_def sample_node_def Let_def
          lookupStatus_response responseOf_def)
  have e1: "rs ! 1 = \<lparr>hash = ''DDD'', index = 4, successful = False,
                       status = JString ''not validated''\<rparr>"
    using one by (simp add: sample_pairs_def)
  have e2: "rs ! 2 = \<lparr>hash = ''AAA'', index = 1, successful = True,
                       status = JString ''tesSUCCESS''\<rparr>"
    using others[rule_format, of 2]
    by (simp add: lookupOutcomes_def sample_pairs_def sample_node_def Let_def
          lookupStatus_response responseOf_def)
  have e3: "rs ! 3 = \<lparr>hash = ''CCC'', index = 3, successful = False,
                       status = JString ''unknown''\<rparr>"
    using others[rule_format, of 3]
    by (simp add: lookupOutcomes_def sample_pairs_def sample_node_def Let_def
          lookupStatus_response responseOf_def)
  have "rs = [rs ! 0, rs ! 1, rs ! 2, rs ! 3]"
    using l4 by (auto intro!: nth_equalityI simp: nth_Cons numeral_2_eq_2 numeral_3_eq_3
          split: nat.splits)
  with e0 e1 e2 e3 have "rs = [\<lparr>hash = ''BBB'', index = 2, successful = False,
            status = JString ''tecUNFUNDED_PAYMENT''\<rparr>,
          \<lparr>hash = ''DDD'', index = 4, successful = False,
            status = JString ''not validated''\<rparr>,
          \<lparr>hash = ''AAA'', index = 1, successful = True, status = JString ''tesSUCCESS''\<rparr>,
          \<lparr>hash = ''CCC'', index = 3, successful = False, status = JString ''unknown''\<rparr>]"
    by simp
  with i o rs show ?thesis by simp
qed

text \<open>
  Claim C4. For a pair whose lookup returns a response whose metadata is absent, is not an
  object or has no \<^verbatim>\<open>TransactionResult\<close> field, the entry is
  \<open>{successful: false, status: "unknown"}\<close> with the hash and the index of the pair.
\<close>

theorem getBatchTxStatus_unknown_without_result_code:
  assumes "i < length xs" and "lookupOutcomes node h xs ! i = Inr res"
    and "\<not> (\<exists>fs. meta (result res) = JObject fs \<and> map_of fs ''TransactionResult'' \<noteq> None)"
  shows "\<exists>rs. fst (getBatchTxStatus node tm h xs) = Inr rs \<and>
          rs ! i = \<lparr>hash = hash (xs ! i), index = index (xs ! i), successful = False,
                    status = JString ''unknown''\<rparr>"
proof -
  obtain rs where res: "getBatchTxStatus node tm h xs =
       (Inr rs, h @ map (\<lambda>tx. Request \<lparr>command = ''tx'', transaction = hash tx\<rparr>) xs)"
    and nth: "\<And>j. j < length xs \<Longrightarrow>
           lookupStatus (xs ! j) (lookupOutcomes node h xs ! j) = Inr (rs ! j)"
    using getBatchTxStatus_entries[of node tm h xs] by blast
  from nth[OF assms(1)] assms(2) have "lookupStatus (xs ! i) (Inr res) = Inr (rs ! i)"
    by simp
  with assms(3)
  have "rs ! i = \<lparr>hash = hash (xs ! i), index = index (xs ! i), successful = False,
                   status = JString ''unknown''\<rparr>"
    by (cases "meta (result res)") (auto simp add: lookupStatus_response split: option.splits)
  with res show ?thesis by simp
qed

theorem getBatchTxStatus_unknown_without_result_code_witness:
  "(3::nat) < length sample_pairs \<and>
   lookupOutcomes sample_node [] sample_pairs ! 3 =
     Inr (responseOf ''CCC'' (JString ''201C00000000'') JUndefined) \<and>
   (\<exists>rs. fst (getBatchTxStatus sample_node last_first [] sample_pairs) = Inr rs \<and>
         rs ! 3 = \<lparr>hash = ''CCC'', index = 3, successful = False,
                    status = JString ''unknown''\<rparr>)"
proof -
  have i: "(3::nat) < length sample_pairs"
    by (simp add: sample_pairs_def)
  have o: "lookupOutcomes sample_node [] sample_pairs ! 3 =
     Inr (responseOf ''CCC'' (JString ''201C00000000'') JUndefined)"
    by (simp add: lookupOutcomes_def sample_pairs_def sample_node_def Let_def)
  have m: "\<not> (\<exists>fs. meta (result (responseOf ''CCC'' (JString ''201C00000000'') JUndefined)) =
                   JObject fs \<and> map_of fs ''TransactionResult'' \<noteq> None)"
    by (simp add: responseOf_def)
  from getBatchTxStatus_unknown_without_result_code[OF i o m, of last_first]
  have "\<exists>rs. fst (getBatchTxStatus sample_node last_first [] sample_pairs) = Inr rs \<and>
         rs ! 3 = \<lparr>hash = ''CCC'', index = 3, successful = False,
                    status = JString ''unknown''\<rparr>"
    by (simp add: sample_pairs_def)
  with i o show ?thesis by blast
qed

text \<open>
  Claim C7. \<^verbatim>\<open>getBatchTxStatus\<close> sends exactly one request per input pair, a
  \<^verbatim>\<open>tx\<close> lookup of that pair's hash, and nothing else: the history of the client
  afterwards is the history before followed by these lookups in input order. The lookups
  share no state: the entry of each pair is what the callback makes of that pair and of the
  outcome of its own lookup.
\<close>

theorem getBatchTxStatus_one_lookup_per_pair:
  "snd (getBatchTxStatus node tm h xs) =
     h @ map (\<lambda>tx. Request \<lparr>command = ''tx'', transaction = hash tx\<rparr>) xs \<and>
   (\<exists>rs. fst (getBatchTxStatus node tm h xs) = Inr rs \<and>
         map Inr rs = map2 lookupStatus xs (lookupOutcomes node h xs))"
  using getBatchTxStatus_zipped[of node tm h xs] by auto

text \<open>
  Claim C10. On the empty list \<^verbatim>\<open>getBatchTxStatus\<close> returns the empty list and
  sends no request: the history of the client is unchanged.
\<close>

theorem getBatchTxStatus_empty:
  "getBatchTxStatus node tm h [] = (Inr [], h)"
  by (simp add: getBatchTxStatus_def promise_all_def List.map_filter_def)

text \<open>
  Claim C6. \<^verbatim>\<open>getBatchTxStatus\<close> only sends \<^verbatim>\<open>tx\<close> lookups, which read the
  ledger. So against a node whose answers are not changed by \<^verbatim>\<open>tx\<close> lookups made
  before (the ledger stays as it is), a second call with the same list, made after the
  first, returns the same list as the first, whatever the timing of either call.
\<close>

theorem getBatchTxStatus_idempotent:
  assumes "\<forall>hist q r. command q = ''tx'' \<longrightarrow> node (hist @ [Request q]) r = node hist r"
  shows "(\<exists>qs. snd (getBatchTxStatus node tm h xs) = h @ map Request qs \<and>
               (\<forall>q \<in> set qs. command q = ''tx'')) \<and>
         fst (getBatchTxStatus node tm' (snd (getBatchTxStatus node tm h xs)) xs) =
           fst (getBatchTxStatus node tm h xs)"
proof -
  let ?lookups = "\<lambda>ys. map (\<lambda>tx. \<lparr>command = ''tx'', transaction = hash tx\<rparr>) ys"
  have hist: "snd (getBatchTxStatus node t k xs) = k @ map Request (?lookups xs)" for t k
    using getBatchTxStatus_entries[of node t k xs] by (auto simp add: comp_def)
  have readonly: "node (k @ map Request qs) r = node k r"
    if "\<forall>q \<in> set qs. command q = ''tx''" for k qs r
    using that
  proof (induction qs rule: rev_induct)
    case Nil
    then show ?case by simp
  next
    case (snoc q qs)
    from snoc.prems have "command q = ''tx''" by simp
    with assms have "node ((k @ map Request qs) @ [Request q]) r = node (k @ map Request qs) r"
      by blast
    with snoc show ?case by simp
  qed
  have outcome: "lookupOutcomes node k xs ! i = node h \<lparr>command = ''tx'', transaction = hash (xs ! i)\<rparr>"
    if "i < length xs" and "\<exists>qs. k = h @ map Request qs \<and> (\<forall>q \<in> set qs. command q = ''tx'')"
    for k i
  proof -
    from that(2) obtain qs where k: "k = h @ map Request qs"
      and qs: "\<forall>q \<in> set qs. command q = ''tx''" by blast
    have "lookupOutcomes node k xs ! i =
        node (h @ map Request (qs @ ?lookups (take i xs)))
          \<lparr>command = ''tx'', transaction = hash (xs ! i)\<rparr>"
      using that(1) by (simp add: lookupOutcomes_nth k comp_def)
    also have "\<dots> = node h \<lparr>command = ''tx'', transaction = hash (xs ! i)\<rparr>"
      by (rule readonly) (use qs in auto)
    finally show ?thesis .
  qed
  have same: "lookupOutcomes node (h @ map Request (?lookups xs)) xs = lookupOutcomes node h xs"
  proof (rule nth_equalityI)
    show "length (lookupOutcomes node (h @ map Request (?lookups xs)) xs) =
          length (lookupOutcomes node h xs)"
      by (simp add: lookupOutcomes_length)
  next
    fix i assume "i < length (lookupOutcomes node (h @ map Request (?lookups xs)) xs)"
    then have i: "i < length xs" by (simp add: lookupOutcomes_length)
    have "lookupOutcomes node (h @ map Request (?lookups xs)) xs ! i =
          node h \<lparr>command = ''tx'', transaction = hash (xs ! i)\<rparr>"
      by (rule outcome[OF i], rule exI[of _ "?lookups xs"]) simp
    moreover have "lookupOutcomes node h xs ! i =
          node h \<lparr>command = ''tx'', transaction = hash (xs ! i)\<rparr>"
      by (rule outcome[OF i], rule exI[of _ "[]"]) simp
    ultimately show "lookupOutcomes node (h @ map Request (?lookups xs)) xs ! i =
          lookupOutcomes node h xs ! i" by simp
  qed
  have fst_eq: "fst (getBatchTxStatus node t k xs) = fst (getBatchTxStatus node t' k' xs)"
    if "lookupOutcomes node k xs = lookupOutcomes node k' xs" for t t' k k'
  proof -
    obtain rs where rs: "fst (getBatchTxStatus node t k xs) = Inr rs"
      and m: "map Inr rs = map2 lookupStatus xs (lookupOutcomes node k xs)"
      using getBatchTxStatus_zipped[of node t k xs] by auto
    obtain rs' where rs': "fst (getBatchTxStatus node t' k' xs) = Inr rs'"
      and m': "map Inr rs' = map2 lookupStatus xs (lookupOutcomes node k' xs)"
      using getBatchTxStatus_zipped[of node t' k' xs] by auto
    from m m' that have "map (Inr :: InnerTxStatus \<Rightarrow> error + InnerTxStatus) rs = map Inr rs'"
      by simp
    then have "rs = rs'"
      by simp
    with rs rs' show ?thesis by simp
  qed
  have "\<exists>qs. snd (getBatchTxStatus node tm h xs) = h @ map Request qs \<and>
             (\<forall>q \<in> set qs. command q = ''tx'')"
    by (rule exI[of _ "?lookups xs"]) (simp add: hist)
  moreover have "fst (getBatchTxStatus node tm' (snd (getBatchTxStatus node tm h xs)) xs) =
           fst (getBatchTxStatus node tm h xs)"
    unfolding hist by (rule fst_eq) (rule same)
  ultimately show ?thesis by blast
qed

theorem getBatchTxStatus_idempotent_witness:
  "fst (getBatchTxStatus sample_node (\<lambda>pending. 0)
          (snd (getBatchTxStatus sample_node last_first [] sample_pairs)) sample_pairs) =
     fst (getBatchTxStatus sample_node last_first [] sample_pairs) \<and>
   snd (getBatchTxStatus sample_node last_first [] sample_pairs) =
     map Request [\<lparr>command = ''tx'', transaction = ''BBB''\<rparr>,
                  \<lparr>command = ''tx'', transaction = ''DDD''\<rparr>,
                  \<lparr>command = ''tx'', transaction = ''AAA''\<rparr>,
                  \<lparr>command = ''tx'', transaction = ''CCC''\<rparr>]"
proof -
  have ro: "\<forall>hist q r. command q = ''tx'' \<longrightarrow>
       sample_node (hist @ [Request q]) r = sample_node hist r"
    by (simp add: sample_node_def)
  have sent: "snd (getBatchTxStatus sample_node last_first [] sample_pairs) =
     map Request [\<lparr>command = ''tx'', transaction = ''BBB''\<rparr>,
                  \<lparr>command = ''tx'', transaction = ''DDD''\<rparr>,
                  \<lparr>command = ''tx'', transaction = ''AAA''\<rparr>,
                  \<lparr>command = ''tx'', transaction = ''CCC''\<rparr>]"
    by (simp add: getBatchTxStatus_def sample_pairs_def Let_def split_beta)
  from getBatchTxStatus_idempotent[OF ro, of last_first "[]" sample_pairs "\<lambda>pending. 0"] sent
  show ?thesis by blast
qed

section \<open>The claim about validateTransactionResult\<close>





section \<open>The claims about batchAllOrNothing\<close>

subsection \<open>The loop over the recorded inner transactions\<close>






subsection \<open>The calls made on the client and the lines printed\<close>

lemma submitBatch_history:
  "\<exists>evs. snd (submitBatch S e h0) = h0 @ evs \<and>
         filter is_NewClient evs = [] \<and> filter (\<lambda>ev. ev = Disconnect) evs = [] \<and>
         length (filter (\<lambda>ev. ev = Connect) evs) =
           (if isl (fromSeed S (ISUEER_SEED e)) \<or> isl (fromSeed S (USER_SEED e)) then 0 else 1)"
  by (auto simp add: submitBatch_def Let_def split: sum.splits prod.splits)


text \<open>The list that the script hands to \<^verbatim>\<open>getBatchTxStatus\<close>, if it gets that
  far (empty when it returns or throws before the call), and what the history then holds:
  the lookup of the batch, the lookups of that list, and the report on the statuses
  returned for it.\<close>

lemma checkInnerTransactions_history:
  "\<exists>statuses.
     fst (getBatchTxStatus (request S) tm
            (h @ [Request \<lparr>command = ''tx'', transaction = tx_hash (result res)\<rparr>])
            (case request S h \<lparr>command = ''tx'', transaction = tx_hash (result res)\<rparr> of
               Inl err \<Rightarrow> []
             | Inr batchTxData \<Rightarrow>
                 (case rawTransactionsOf batchTxData of
                    JArray raws \<Rightarrow>
                      (case collectInnerTxHashes (hashSignedTx S) raws 0 [] of
                         Inl err \<Rightarrow> [] | Inr innerTxHashes \<Rightarrow> innerTxHashes)
                  | other \<Rightarrow> []))) = Inr statuses \<and>
     snd (checkInnerTransactions S tm res innerTransactions h) =
       h @ Request \<lparr>command = ''tx'', transaction = tx_hash (result res)\<rparr> #
         map (\<lambda>p. Request \<lparr>command = ''tx'', transaction = hash p\<rparr>)
           (case request S h \<lparr>command = ''tx'', transaction = tx_hash (result res)\<rparr> of
              Inl err \<Rightarrow> []
            | Inr batchTxData \<Rightarrow>
                (case rawTransactionsOf batchTxData of
                   JArray raws \<Rightarrow>
                     (case collectInnerTxHashes (hashSignedTx S) raws 0 [] of
                        Inl err \<Rightarrow> [] | Inr innerTxHashes \<Rightarrow> innerTxHashes)
                 | other \<Rightarrow> [])) @
         map (\<lambda>tx. ConsoleLog (StatusLine (successful tx) (index tx) (status tx))) statuses @
         map ConsoleLog (concat (map (failedTxLines innerTransactions)
                                   (filter (\<lambda>tx. \<not> successful tx) statuses)))"
proof -
  let ?req = "\<lparr>command = ''tx'', transaction = tx_hash (result res)\<rparr>"
  let ?h1 = "h @ [Request ?req]"
  have empty: "fst (getBatchTxStatus (request S) tm ?h1 []) = Inr []"
    using getBatchTxStatus_entries[of "request S" tm ?h1 "[]"] by auto
  show ?thesis
  proof (cases "request S h ?req")
    case (Inl err)
    with empty show ?thesis
      by (simp add: checkInnerTransactions_def Let_def)
  next
    case d: (Inr batchTxData)
    show ?thesis
    proof (cases "\<exists>raws. rawTransactionsOf batchTxData = JArray raws")
      case False
      with d empty show ?thesis
        by (cases "rawTransactionsOf batchTxData")
           (simp_all add: checkInnerTransactions_def Let_def)
    next
      case True
      then obtain raws where raws: "rawTransactionsOf batchTxData = JArray raws" ..
      show ?thesis
      proof (cases "collectInnerTxHashes (hashSignedTx S) raws 0 []")
        case (Inl err)
        with d raws empty show ?thesis
          by (simp add: checkInnerTransactions_def Let_def)
      next
        case c: (Inr innerTxHashes)
        show ?thesis
        proof (cases "innerTxHashes = []")
          case True
          with d raws c empty show ?thesis
            by (simp add: checkInnerTransactions_def Let_def)
        next
          case False
          obtain statuses where g: "getBatchTxStatus (request S) tm ?h1 innerTxHashes =
              (Inr statuses,
               ?h1 @ map (\<lambda>tx. Request \<lparr>command = ''tx'', transaction = hash tx\<rparr>) innerTxHashes)"
            using getBatchTxStatus_entries[of "request S" tm ?h1 innerTxHashes] by blast
          with d raws c False show ?thesis
            by (simp add: checkInnerTransactions_def Let_def)
        qed
      qed
    qed
  qed
qed



text \<open>
  Claim C8. \<^verbatim>\<open>batchAllOrNothing\<close> creates exactly one client, before anything
  else, and calls \<^verbatim>\<open>disconnect\<close> on it exactly once, as its last call, on every
  path: whether the body returns true, returns false or throws, and whatever the SDK does.
  \<^verbatim>\<open>connect\<close> is called at most once: once when both wallets could be built, not
  at all when \<^verbatim>\<open>Wallet.fromSeed\<close> throws first.
\<close>

theorem batchAllOrNothing_always_disconnects:
  "filter is_NewClient (snd (batchAllOrNothing S e tm)) = [NewClient (ws (getNetworkUrl e))] \<and>
   hd (snd (batchAllOrNothing S e tm)) = NewClient (ws (getNetworkUrl e)) \<and>
   filter (\<lambda>ev. ev = Disconnect) (snd (batchAllOrNothing S e tm)) = [Disconnect] \<and>
   last (snd (batchAllOrNothing S e tm)) = Disconnect \<and>
   length (filter (\<lambda>ev. ev = Connect) (snd (batchAllOrNothing S e tm))) =
     (if isl (fromSeed S (ISUEER_SEED e)) \<or> isl (fromSeed S (USER_SEED e)) then 0 else 1)"
proof -
  let ?new = "NewClient (ws (getNetworkUrl e))"
  obtain evs where sub: "snd (submitBatch S e [?new]) = [?new] @ evs"
    and evs: "filter is_NewClient evs = []" "filter (\<lambda>ev. ev = Disconnect) evs = []"
      "length (filter (\<lambda>ev. ev = Connect) evs) =
         (if isl (fromSeed S (ISUEER_SEED e)) \<or> isl (fromSeed S (USER_SEED e)) then 0 else 1)"
    using submitBatch_history[of S e "[?new]"] by blast
  have "\<exists>qs ls. snd (batchAllOrNothing S e tm) =
          ?new # evs @ map Request qs @ map ConsoleLog ls @ [Disconnect]"
  proof (cases "fst (submitBatch S e [?new])")
    case (Inl err)
    with sub have "submitBatch S e [?new] = (Inl err, [?new] @ evs)"
      by (simp add: prod_eq_iff)
    then have "snd (batchAllOrNothing S e tm) =
        ?new # evs @ map Request [] @ map ConsoleLog [] @ [Disconnect]"
      by (simp add: batchAllOrNothing_def Let_def split: sum.splits)
    then show ?thesis by blast
  next
    case (Inr ok)
    obtain res innerTransactions where ok: "ok = (res, innerTransactions)"
      by (cases ok)
    from Inr sub ok
    have s: "submitBatch S e [?new] = (Inr (res, innerTransactions), [?new] @ evs)"
      by (simp add: prod_eq_iff)
    obtain qs ls where
      "snd (checkInnerTransactions S tm res innerTransactions ([?new] @ evs)) =
        ([?new] @ evs) @ map Request qs @ map ConsoleLog ls"
    proof -
      obtain pairs :: "hash_index list" and statuses where c:
        "snd (checkInnerTransactions S tm res innerTransactions ([?new] @ evs)) =
          ([?new] @ evs) @
            Request \<lparr>command = ''tx'', transaction = tx_hash (result res)\<rparr> #
            map (\<lambda>p. Request \<lparr>command = ''tx'', transaction = hash p\<rparr>) pairs @
            map (\<lambda>tx. ConsoleLog (StatusLine (successful tx) (index tx) (status tx)))
              statuses @
            map ConsoleLog (concat (map (failedTxLines innerTransactions)
                                      (filter (\<lambda>tx. \<not> successful tx) statuses)))"
        using checkInnerTransactions_history[of S tm "[?new] @ evs" res innerTransactions]
        by blast
      have "snd (checkInnerTransactions S tm res innerTransactions ([?new] @ evs)) =
          ([?new] @ evs) @
            map Request (\<lparr>command = ''tx'', transaction = tx_hash (result res)\<rparr> #
                         map (\<lambda>p. \<lparr>command = ''tx'', transaction = hash p\<rparr>) pairs) @
            map ConsoleLog
              (map (\<lambda>tx. StatusLine (successful tx) (index tx) (status tx)) statuses @
               concat (map (failedTxLines innerTransactions)
                         (filter (\<lambda>tx. \<not> successful tx) statuses)))"
        unfolding c by (simp add: comp_def)
      then show thesis by (rule that)
    qed
    with s have "snd (batchAllOrNothing S e tm) =
        ?new # evs @ map Request qs @ map ConsoleLog ls @ [Disconnect]"
      by (simp add: batchAllOrNothing_def Let_def split_beta split: sum.splits)
    then show ?thesis by blast
  qed
  then obtain qs ls where
    hist: "snd (batchAllOrNothing S e tm) =
             ?new # evs @ map Request qs @ map ConsoleLog ls @ [Disconnect]"
    by blast
  have r: "filter is_NewClient (map Request qs) = []"
      "filter (\<lambda>ev. ev = Disconnect) (map Request qs) = []"
      "filter (\<lambda>ev. ev = Connect) (map Request qs) = []"
      "filter is_NewClient (map ConsoleLog ls) = []"
      "filter (\<lambda>ev. ev = Disconnect) (map ConsoleLog ls) = []"
      "filter (\<lambda>ev. ev = Connect) (map ConsoleLog ls) = []"
    by (simp_all add: filter_empty_conv)
  show ?thesis
    unfolding hist using evs r by simp
qed

theorem batchAllOrNothing_always_disconnects_witness:
  "fst (batchAllOrNothing sample_sdk sample_env last_first) = Inr False \<and>
   last (snd (batchAllOrNothing sample_sdk sample_env last_first)) = Disconnect \<and>
   length (filter (\<lambda>ev. ev = Connect)
             (snd (batchAllOrNothing sample_sdk sample_env last_first))) = 1 \<and>
   fst (batchAllOrNothing sample_sdk bad_seed_env last_first) = Inr False \<and>
   last (snd (batchAllOrNothing sample_sdk bad_seed_env last_first)) = Disconnect \<and>
   length (filter (\<lambda>ev. ev = Connect)
             (snd (batchAllOrNothing sample_sdk bad_seed_env last_first))) = 0"
proof -
  have good: "fst (batchAllOrNothing sample_sdk sample_env last_first) = Inr False"
    by (simp add: batchAllOrNothing_def submitBatch_def checkInnerTransactions_def
          sample_sdk_def sample_env_def getNetworkUrl_def validateTransactionResult_def
          txResultOf_def responseOf_def Let_def sample_batchTxData_def rawTransactionsOf_def
          sample_raws_def getBatchTxStatus_def sample_node_def lookupStatus_def
          statusOfResponse_def promise_all_def last_first_def List.map_filter_def)
  have bad: "fst (batchAllOrNothing sample_sdk bad_seed_env last_first) = Inr False"
    by (simp add: batchAllOrNothing_def submitBatch_def sample_sdk_def bad_seed_env_def
          getNetworkUrl_def Let_def)
  have seeds: "\<not> isl (fromSeed sample_sdk (ISUEER_SEED sample_env))"
      "\<not> isl (fromSeed sample_sdk (USER_SEED sample_env))"
      "isl (fromSeed sample_sdk (USER_SEED bad_seed_env))"
    by (simp_all add: sample_sdk_def sample_env_def bad_seed_env_def)
  from batchAllOrNothing_always_disconnects[of sample_sdk sample_env last_first]
    batchAllOrNothing_always_disconnects[of sample_sdk bad_seed_env last_first]
    good bad seeds
  show ?thesis by simp
qed

end
